theory Spec2Isabelle
  imports Main
begin

section \<open>LitFusion: the dispatcher of \<^verbatim>\<open>litfusion_api.py\<close>\<close>

text \<open>
  The class \<^verbatim>\<open>LitFusion\<close> reads its configuration from the process environment, loads one
  diffusion pipeline, and routes each request to one of three generator methods. Everything
  it calls in \<^verbatim>\<open>diffusers\<close>, \<^verbatim>\<open>torch\<close> and the file system is outside the repository, and so
  is Python's \<^verbatim>\<open>int()\<close>: those calls are parameters of the model (records of functions that may
  fail), and every library call is written to a log so that theorems can count them. Exceptions are values of type \<open>error\<close>.
  The \<^verbatim>\<open>print\<close> calls of \<^verbatim>\<open>setup\<close> and the three module-level lines that start the server are
  not modelled.
\<close>

subsection \<open>Python values and exceptions\<close>

datatype error =
    ValueError string
  | ValueError_of_int string
  | TypeError
  | AttributeError
  | LibraryError string

text \<open>
  \<open>ValueError\<close> carries the message the source gives it. \<open>ValueError_of_int\<close> is the
  \<^verbatim>\<open>ValueError\<close> that \<^verbatim>\<open>int()\<close> raises on the text it carries; the messages of that
  exception, of \<open>TypeError\<close> and of \<open>AttributeError\<close> are not modelled. \<open>LibraryError\<close> is
  an exception raised inside the library.
\<close>

text \<open>
  The values a request field can hold. Floating-point numbers are left out; \<open>PImage\<close> stands
  for a decoded image object.
\<close>

datatype 'i pyval = PNone | PBool bool | PInt int | PStr string | PImage 'i

type_synonym 'i request = "string \<rightharpoonup> 'i pyval"

text \<open>\<^verbatim>\<open>request.get(key, default)\<close>; \<^verbatim>\<open>request.get(key)\<close> is \<open>get_item request key PNone\<close>.\<close>

definition get_item :: "'i request \<Rightarrow> string \<Rightarrow> 'i pyval \<Rightarrow> 'i pyval" where
  "get_item request key dflt = (case request key of None \<Rightarrow> dflt | Some v \<Rightarrow> v)"

text \<open>Truth value of an attribute that is \<^verbatim>\<open>None\<close> until \<^verbatim>\<open>setup\<close> assigns a \<^verbatim>\<open>bool\<close>.\<close>

definition truthy :: "bool option \<Rightarrow> bool" where
  "truthy b = (case b of None \<Rightarrow> False | Some v \<Rightarrow> v)"

subsection \<open>The environment\<close>

type_synonym environ = "string \<rightharpoonup> string"

text \<open>
  \<^verbatim>\<open>int(os.getenv(key, dflt))\<close> with an integer default. \<^verbatim>\<open>int()\<close> on a string is Python's
  own and not part of the repository: it is the parameter \<open>to_int\<close>, which returns the
  integer or the exception raised.
\<close>

definition getenv_int :: "(string \<Rightarrow> error + int) \<Rightarrow> environ \<Rightarrow> string \<Rightarrow> int \<Rightarrow> error + int" where
  "getenv_int to_int env key dflt = (case env key of None \<Rightarrow> Inr dflt | Some v \<Rightarrow> to_int v)"

text \<open>\<^verbatim>\<open>os.getenv(key, dflt)\<close> with a string default.\<close>

definition getenv_str :: "environ \<Rightarrow> string \<Rightarrow> string \<Rightarrow> string" where
  "getenv_str env key dflt = (case env key of None \<Rightarrow> dflt | Some v \<Rightarrow> v)"

subsection \<open>The object and the library it calls\<close>

datatype family = Text2Image | Inpainting | Image2Image

datatype target = Float16 | Cuda

text \<open>One entry per call into the library, in the order the calls are made.\<close>

datatype 'i event =
    From_pretrained family "string option"
  | Enable_sequential_cpu_offload
  | Vae_enable_slicing
  | Vae_enable_tiling
  | To target
  | From_pipe family
  | Pipe_call family "(string \<times> 'i pyval) list"

datatype 'j presets = Empty_dict | Loaded 'j

text \<open>The attributes of \<^verbatim>\<open>LitFusion\<close>; \<open>None\<close> is Python's \<^verbatim>\<open>None\<close>.\<close>

record ('p, 'j) litfusion =
  pipeline :: "'p option"
  quality_presets :: "'j presets option"
  enable_image_variations :: "bool option"
  enable_image_edits :: "bool option"
  enable_images_generation :: "bool option"
  enable_vae_tiling :: "bool option"
  enable_vae_slicing :: "bool option"
  enable_cpu_offload :: "bool option"
  max_n :: "int option"
  model_name :: "string option"

text \<open>\<^verbatim>\<open>__init__\<close>\<close>

definition init :: "('p, 'j) litfusion" where
  "init = \<lparr>pipeline = None, quality_presets = None, enable_image_variations = None,
     enable_image_edits = None, enable_images_generation = None, enable_vae_tiling = None,
     enable_vae_slicing = None, enable_cpu_offload = None, max_n = None, model_name = None\<rparr>"

text \<open>
  What \<^verbatim>\<open>setup\<close> calls outside the repository. \<open>int_of_str\<close> is \<^verbatim>\<open>int()\<close> on the text of
  an environment variable. \<open>config_json\<close> is \<open>None\<close> when
  \<^verbatim>\<open>config.json\<close> does not exist, otherwise the outcome of opening and parsing it. The
  methods that change a pipeline in place return the changed pipeline.
\<close>

record ('p, 'j) loaders =
  int_of_str :: "string \<Rightarrow> error + int"
  config_json :: "(error + 'j) option"
  from_pretrained :: "family \<Rightarrow> string option \<Rightarrow> error + 'p"
  enable_sequential_cpu_offload :: "'p \<Rightarrow> error + 'p"
  vae_enable_slicing :: "'p \<Rightarrow> error + 'p"
  vae_enable_tiling :: "'p \<Rightarrow> error + 'p"
  pipe_to :: "target \<Rightarrow> 'p \<Rightarrow> error + 'p"

text \<open>
  What the handlers call. \<open>from_pipe\<close> receives whatever \<^verbatim>\<open>self.pipeline\<close> holds. A pipeline
  call takes its keyword arguments and the state \<open>'r\<close> of the sampler, and returns the list
  \<^verbatim>\<open>.images\<close> or an exception, with the next sampler state.
\<close>

record ('p, 'i, 'r) diffusers =
  from_pipe :: "family \<Rightarrow> 'p option \<Rightarrow> error + 'p"
  pipe_call :: "'p \<Rightarrow> (string \<times> 'i pyval) list \<Rightarrow> 'r \<Rightarrow> (error + 'i list) \<times> 'r"

subsection \<open>\<^verbatim>\<open>setup\<close>\<close>

text \<open>
  A step of \<^verbatim>\<open>setup\<close> returns the exception it raised, if any, the object as it then is,
  and the library calls it made. \<^verbatim>\<open>setup\<close> is one function in the source; the model cuts it
  at its comments.
\<close>

type_synonym ('p, 'j, 'i) step = "error option \<times> ('p, 'j) litfusion \<times> 'i event list"

fun then_run :: "('p, 'j, 'i) step \<Rightarrow> (('p, 'j) litfusion \<Rightarrow> ('p, 'j, 'i) step)
    \<Rightarrow> ('p, 'j, 'i) step" where
  "then_run (Some e, self, log) f = (Some e, self, log)"
| "then_run (None, self, log) f = (case f self of (r, self', log') \<Rightarrow> (r, self', log @ log'))"

text \<open>Lines 26 to 35: each assignment happens before the next variable is read.\<close>

definition read_settings :: "(string \<Rightarrow> error + int) \<Rightarrow> environ \<Rightarrow> ('p, 'j) litfusion
    \<Rightarrow> error option \<times> ('p, 'j) litfusion" where
  "read_settings to_int env self =
     (let s1 = self\<lparr>model_name := Some (getenv_str env ''MODEL'' ''default-model'')\<rparr> in
      case getenv_int to_int env ''MAX_N'' 10 of Inl e \<Rightarrow> (Some e, s1) | Inr n \<Rightarrow>
      let s2 = s1\<lparr>max_n := Some n\<rparr> in
      case getenv_int to_int env ''ENABLE_CPU_OFFLOAD'' 0 of Inl e \<Rightarrow> (Some e, s2) | Inr a \<Rightarrow>
      let s3 = s2\<lparr>enable_cpu_offload := Some (a \<noteq> 0)\<rparr> in
      case getenv_int to_int env ''ENABLE_VAE_SLICING'' 0 of Inl e \<Rightarrow> (Some e, s3) | Inr b \<Rightarrow>
      let s4 = s3\<lparr>enable_vae_slicing := Some (b \<noteq> 0)\<rparr> in
      case getenv_int to_int env ''ENABLE_VAE_TILING'' 0 of Inl e \<Rightarrow> (Some e, s4) | Inr c \<Rightarrow>
      let s5 = s4\<lparr>enable_vae_tiling := Some (c \<noteq> 0)\<rparr> in
      case getenv_int to_int env ''ENABLE_IMAGES_GENERATION'' 1 of Inl e \<Rightarrow> (Some e, s5) | Inr g \<Rightarrow>
      let s6 = s5\<lparr>enable_images_generation := Some (g \<noteq> 0)\<rparr> in
      case getenv_int to_int env ''ENABLE_IMAGE_EDITS'' 1 of Inl e \<Rightarrow> (Some e, s6) | Inr d \<Rightarrow>
      let s7 = s6\<lparr>enable_image_edits := Some (d \<noteq> 0)\<rparr> in
      case getenv_int to_int env ''ENABLE_IMAGE_VARIATIONS'' 1 of Inl e \<Rightarrow> (Some e, s7) | Inr v \<Rightarrow>
      (None, s7\<lparr>enable_image_variations := Some (v \<noteq> 0)\<rparr>))"

text \<open>Lines 38 to 43.\<close>

definition load_presets :: "('p, 'j) loaders \<Rightarrow> ('p, 'j) litfusion \<Rightarrow> ('p, 'j, 'i) step" where
  "load_presets ld self =
     (case config_json ld of
        None \<Rightarrow> (None, self\<lparr>quality_presets := Some Empty_dict\<rparr>, [])
      | Some (Inl e) \<Rightarrow> (Some e, self, [])
      | Some (Inr j) \<Rightarrow> (None, self\<lparr>quality_presets := Some (Loaded j)\<rparr>, []))"

definition no_pipeline_message :: string where
  "no_pipeline_message = ''No pipeline enabled. Please enable at least one of the following: images generation, image edits, image variations''"

text \<open>One call of \<^verbatim>\<open>from_pretrained\<close> and the assignment of its result.\<close>

definition construct :: "('p, 'j) loaders \<Rightarrow> family \<Rightarrow> ('p, 'j) litfusion \<Rightarrow> ('p, 'j, 'i) step" where
  "construct ld fam self =
     (case from_pretrained ld fam (model_name self) of
        Inl e \<Rightarrow> (Some e, self, [From_pretrained fam (model_name self)])
      | Inr p \<Rightarrow> (None, self\<lparr>pipeline := Some p\<rparr>, [From_pretrained fam (model_name self)]))"

text \<open>Lines 47 to 54.\<close>

definition load_pipeline :: "('p, 'j) loaders \<Rightarrow> ('p, 'j) litfusion \<Rightarrow> ('p, 'j, 'i) step" where
  "load_pipeline ld self =
     (if truthy (enable_images_generation self) then construct ld Text2Image self
      else if truthy (enable_image_edits self) then construct ld Inpainting self
      else if truthy (enable_image_variations self) then construct ld Image2Image self
      else (Some (ValueError no_pipeline_message), self, []))"

text \<open>A method call on \<^verbatim>\<open>self.pipeline\<close> that changes the pipeline in place.\<close>

definition on_pipeline :: "('p \<Rightarrow> error + 'p) \<Rightarrow> 'i event \<Rightarrow> ('p, 'j) litfusion \<Rightarrow> ('p, 'j, 'i) step" where
  "on_pipeline f ev self =
     (case pipeline self of
        None \<Rightarrow> (Some AttributeError, self, [])
      | Some p \<Rightarrow>
          (case f p of
             Inl e \<Rightarrow> (Some e, self, [ev])
           | Inr p' \<Rightarrow> (None, self\<lparr>pipeline := Some p'\<rparr>, [ev])))"

definition when_set :: "bool option \<Rightarrow> (('p, 'j) litfusion \<Rightarrow> ('p, 'j, 'i) step)
    \<Rightarrow> ('p, 'j) litfusion \<Rightarrow> ('p, 'j, 'i) step" where
  "when_set flag f self = (if truthy flag then f self else (None, self, []))"

text \<open>Lines 57 to 65.\<close>

definition apply_settings :: "('p, 'j) loaders \<Rightarrow> ('p, 'j) litfusion \<Rightarrow> ('p, 'j, 'i) step" where
  "apply_settings ld self =
     then_run (then_run (then_run (then_run
       (when_set (enable_cpu_offload self)
          (on_pipeline (enable_sequential_cpu_offload ld) Enable_sequential_cpu_offload) self)
       (\<lambda>s. when_set (enable_vae_slicing s) (on_pipeline (vae_enable_slicing ld) Vae_enable_slicing) s))
       (\<lambda>s. when_set (enable_vae_tiling s) (on_pipeline (vae_enable_tiling ld) Vae_enable_tiling) s))
       (on_pipeline (pipe_to ld Float16) (To Float16)))
       (on_pipeline (pipe_to ld Cuda) (To Cuda))"

text \<open>
  \<^verbatim>\<open>setup(self, device)\<close>; the argument \<open>device\<close> is not used by the source. The constant
  is called \<open>setup_api\<close> because \<open>setup\<close> is a keyword of Isabelle.
\<close>

definition setup_api :: "('p, 'j) loaders \<Rightarrow> environ \<Rightarrow> string \<Rightarrow> ('p, 'j) litfusion
    \<Rightarrow> ('p, 'j, 'i) step" where
  "setup_api ld env device self =
     (case read_settings (int_of_str ld) env self of
        (Some e, s) \<Rightarrow> (Some e, s, [])
      | (None, s) \<Rightarrow>
          then_run (then_run (load_presets ld s) (load_pipeline ld)) (apply_settings ld))"

subsection \<open>\<^verbatim>\<open>predict\<close> and the three handlers\<close>

datatype handler = Generate_images | Edit_images | Generate_variations

text \<open>
  What \<^verbatim>\<open>predict\<close> yields: a string, or the generator object made by calling a handler. Making
  the generator object runs none of the handler's body.
\<close>

datatype 'i item = Text string | Generator handler "'i request"

definition sentinel :: string where
  "sentinel = ''Unknown or disabled request type''"

text \<open>The sequence of items \<^verbatim>\<open>predict\<close> yields before it returns.\<close>

definition predict :: "('p, 'j) litfusion \<Rightarrow> 'i request \<Rightarrow> 'i item list" where
  "predict self request =
     (let request_type = get_item request ''request_type'' PNone in
      if request_type = PStr ''generation'' \<and> truthy (enable_images_generation self) then
        [Generator Generate_images request]
      else if request_type = PStr ''edit'' \<and> truthy (enable_image_edits self) then
        [Generator Edit_images request]
      else if request_type = PStr ''variation'' \<and> truthy (enable_image_variations self) then
        [Generator Generate_variations request]
      else [Text sentinel])"

text \<open>
  What iterating a handler's generator to its end gives: the images yielded, the exception
  that ended it (if one did), the library calls made, and the sampler state left behind.
\<close>

record ('i, 'r) outcome =
  yielded :: "'i list"
  raised :: "error option"
  calls :: "'i event list"
  sampler :: 'r

text \<open>
  The number of values of \<^verbatim>\<open>range(min(request.get('n', 1), self.max_n))\<close>. \<^verbatim>\<open>min\<close> compares
  with \<^verbatim>\<open><\<close>, which raises \<^verbatim>\<open>TypeError\<close> between an \<^verbatim>\<open>int\<close> and \<^verbatim>\<open>None\<close>, a string or an
  image; a \<^verbatim>\<open>bool\<close> counts as 0 or 1. \<^verbatim>\<open>range\<close> of a number below 1 is empty.
\<close>

definition iteration_count :: "'i request \<Rightarrow> int option \<Rightarrow> error + nat" where
  "iteration_count request limit =
     (case limit of
        None \<Rightarrow> Inl TypeError
      | Some m \<Rightarrow>
          (case get_item request ''n'' (PInt 1) of
             PInt k \<Rightarrow> Inr (nat (min k m))
           | PBool b \<Rightarrow> Inr (nat (min (if b then 1 else 0) m))
           | _ \<Rightarrow> Inl TypeError))"

text \<open>
  The loop: \<open>k\<close> more iterations, each one pipeline call whose images are yielded in order.
  An exception from the call ends the generator.
\<close>

fun iterate :: "('r \<Rightarrow> (error + 'i list) \<times> 'r) \<Rightarrow> 'i event \<Rightarrow> nat \<Rightarrow> 'r \<Rightarrow> ('i, 'r) outcome" where
  "iterate f ev 0 r = \<lparr>yielded = [], raised = None, calls = [], sampler = r\<rparr>"
| "iterate f ev (Suc k) r =
     (case f r of
        (Inl e, r') \<Rightarrow> \<lparr>yielded = [], raised = Some e, calls = [ev], sampler = r'\<rparr>
      | (Inr images, r') \<Rightarrow>
          (let rest = iterate f ev k r' in
           rest\<lparr>yielded := images @ yielded rest, calls := ev # calls rest\<rparr>))"

text \<open>
  The shape the three handlers share: derive the view with \<^verbatim>\<open>from_pipe\<close>, then loop. The
  keyword arguments are read from the request on every iteration and nothing changes the
  request, so they are computed once.
\<close>

definition handle :: "('p, 'i, 'r) diffusers \<Rightarrow> family \<Rightarrow> (string \<times> 'i pyval) list
    \<Rightarrow> ('p, 'j) litfusion \<Rightarrow> 'i request \<Rightarrow> 'r \<Rightarrow> ('i, 'r) outcome" where
  "handle dz fam kwargs self request r =
     (case from_pipe dz fam (pipeline self) of
        Inl e \<Rightarrow> \<lparr>yielded = [], raised = Some e, calls = [From_pipe fam], sampler = r\<rparr>
      | Inr view \<Rightarrow>
          (case iteration_count request (max_n self) of
             Inl e \<Rightarrow> \<lparr>yielded = [], raised = Some e, calls = [From_pipe fam], sampler = r\<rparr>
           | Inr k \<Rightarrow>
               (let out = iterate (pipe_call dz view kwargs) (Pipe_call fam kwargs) k r in
                out\<lparr>calls := From_pipe fam # calls out\<rparr>)))"

definition generate_images :: "('p, 'i, 'r) diffusers \<Rightarrow> ('p, 'j) litfusion \<Rightarrow> 'i request
    \<Rightarrow> 'r \<Rightarrow> ('i, 'r) outcome" where
  "generate_images dz self request =
     handle dz Text2Image
       [(''prompt'', get_item request ''prompt'' (PStr ''A beautiful landscape''))]
       self request"

definition edit_images :: "('p, 'i, 'r) diffusers \<Rightarrow> ('p, 'j) litfusion \<Rightarrow> 'i request
    \<Rightarrow> 'r \<Rightarrow> ('i, 'r) outcome" where
  "edit_images dz self request =
     handle dz Inpainting
       [(''prompt'', get_item request ''prompt'' (PStr ''Edit the image to look more vibrant'')),
        (''image'', get_item request ''image'' PNone),
        (''mask_image'', get_item request ''mask'' PNone)]
       self request"

definition generate_variations :: "('p, 'i, 'r) diffusers \<Rightarrow> ('p, 'j) litfusion \<Rightarrow> 'i request
    \<Rightarrow> 'r \<Rightarrow> ('i, 'r) outcome" where
  "generate_variations dz self request =
     handle dz Image2Image
       [(''prompt'', get_item request ''prompt'' (PStr ''Generate variations'')),
        (''image'', get_item request ''image'' PNone)]
       self request"

text \<open>Iterating one item that \<^verbatim>\<open>predict\<close> yielded: a string has nothing to iterate.\<close>

fun run_item :: "('p, 'i, 'r) diffusers \<Rightarrow> ('p, 'j) litfusion \<Rightarrow> 'i item \<Rightarrow> 'r
    \<Rightarrow> ('i, 'r) outcome" where
  "run_item dz self (Text s) r = \<lparr>yielded = [], raised = None, calls = [], sampler = r\<rparr>"
| "run_item dz self (Generator Generate_images request) r = generate_images dz self request r"
| "run_item dz self (Generator Edit_images request) r = edit_images dz self request r"
| "run_item dz self (Generator Generate_variations request) r = generate_variations dz self request r"

text \<open>The library calls made when every item of a response is iterated to its end.\<close>

fun response_calls :: "('p, 'i, 'r) diffusers \<Rightarrow> ('p, 'j) litfusion \<Rightarrow> 'i item list \<Rightarrow> 'r
    \<Rightarrow> 'i event list" where
  "response_calls dz self [] r = []"
| "response_calls dz self (x # xs) r =
     (let out = run_item dz self x r in calls out @ response_calls dz self xs (sampler out))"

text \<open>The pipeline calls among the library calls.\<close>

fun is_pipe_call :: "'i event \<Rightarrow> bool" where
  "is_pipe_call (Pipe_call fam kwargs) = True"
| "is_pipe_call ev = False"

fun is_from_pretrained :: "'i event \<Rightarrow> bool" where
  "is_from_pretrained (From_pretrained fam name) = True"
| "is_from_pretrained ev = False"

definition invocations :: "'i event list \<Rightarrow> nat" where
  "invocations log = length (filter is_pipe_call log)"

subsection \<open>Example objects\<close>

text \<open>A library in which every call succeeds; the sampler state counts the calls.\<close>

definition diffusers0 :: "(family, nat, nat) diffusers" where
  "diffusers0 =
     \<lparr>from_pipe = (\<lambda>fam p. case p of None \<Rightarrow> Inl (LibraryError ''no pipeline'') | Some q \<Rightarrow> Inr fam),
      pipe_call = (\<lambda>view kwargs r. (Inr [r], Suc r))\<rparr>"

text \<open>The object after a \<^verbatim>\<open>setup\<close> in an empty environment.\<close>

definition ready :: "(family, unit) litfusion" where
  "ready = init\<lparr>pipeline := Some Text2Image, quality_presets := Some Empty_dict,
     enable_image_variations := Some True, enable_image_edits := Some True,
     enable_images_generation := Some True, enable_vae_tiling := Some False,
     enable_vae_slicing := Some False, enable_cpu_offload := Some False,
     max_n := Some 10, model_name := Some ''default-model''\<rparr>"

definition self_no_edits :: "(family, unit) litfusion" where
  "self_no_edits = ready\<lparr>enable_image_edits := Some False\<rparr>"

definition edit_request :: "nat request" where
  "edit_request = [''request_type'' \<mapsto> PStr ''edit'', ''n'' \<mapsto> PInt 2]"

text \<open>
  The specification's clamp of a requested count \<open>n\<close> to the interval from \<open>lo\<close> to \<open>hi\<close>,
  written from the specification's words, to be compared with what the handlers compute.
\<close>

definition clamp_spec :: "int \<Rightarrow> int \<Rightarrow> int \<Rightarrow> int" where
  "clamp_spec lo hi n = max lo (min hi n)"

text \<open>A library whose pipeline returns one image more on every call.\<close>

definition diffusers_varying :: "(family, nat, nat) diffusers" where
  "diffusers_varying =
     \<lparr>from_pipe = (\<lambda>fam p. case p of None \<Rightarrow> Inl (LibraryError ''no pipeline'') | Some q \<Rightarrow> Inr fam),
      pipe_call = (\<lambda>view kwargs r. (Inr (replicate (Suc r) r), Suc r))\<rparr>"

text \<open>A library whose pipeline raises when its \<^verbatim>\<open>image\<close> argument is \<^verbatim>\<open>None\<close>.\<close>

definition diffusers_strict :: "(family, nat, nat) diffusers" where
  "diffusers_strict =
     \<lparr>from_pipe = (\<lambda>fam p. case p of None \<Rightarrow> Inl (LibraryError ''no pipeline'') | Some q \<Rightarrow> Inr fam),
      pipe_call = (\<lambda>view kwargs r.
        if (''image'', PNone) \<in> set kwargs then (Inl (LibraryError ''image is required''), r)
        else (Inr [r], Suc r))\<rparr>"

definition zero_request :: "nat request" where
  "zero_request = [''request_type'' \<mapsto> PStr ''generation'', ''n'' \<mapsto> PInt 0]"

definition three_request :: "nat request" where
  "three_request = [''request_type'' \<mapsto> PStr ''generation'', ''n'' \<mapsto> PInt 3]"

definition plain_request :: "nat request" where
  "plain_request = [''request_type'' \<mapsto> PStr ''generation'', ''prompt'' \<mapsto> PStr ''a cat'']"

definition variation_request :: "nat request" where
  "variation_request = [''request_type'' \<mapsto> PStr ''variation'']"

subsection \<open>Notions used in the statements about \<^verbatim>\<open>setup\<close>\<close>




text \<open>
  The specification's priority order, from its words: generation first, then edit, then
  variation.
\<close>

definition priority_family :: "bool \<Rightarrow> bool \<Rightarrow> bool \<Rightarrow> family" where
  "priority_family generation edit variation =
     (if generation then Text2Image else if edit then Inpainting else Image2Image)"

text \<open>Two objects agree on the eight attributes read from the environment.\<close>

definition same_settings :: "('p, 'j) litfusion \<Rightarrow> ('p, 'j) litfusion \<Rightarrow> bool" where
  "same_settings a b \<longleftrightarrow>
     model_name a = model_name b \<and> max_n a = max_n b \<and>
     enable_cpu_offload a = enable_cpu_offload b \<and> enable_vae_slicing a = enable_vae_slicing b \<and>
     enable_vae_tiling a = enable_vae_tiling b \<and>
     enable_images_generation a = enable_images_generation b \<and>
     enable_image_edits a = enable_image_edits b \<and>
     enable_image_variations a = enable_image_variations b"

text \<open>
  A step that leaves the settings and the presets alone, constructs no pipeline and does not
  unset the pipeline.
\<close>

definition tame :: "('p, 'j) litfusion \<Rightarrow> ('p, 'j, 'i) step \<Rightarrow> bool" where
  "tame s x = (case x of (r, s', log) \<Rightarrow>
     same_settings s s' \<and> filter is_from_pretrained log = [] \<and>
     quality_presets s' = quality_presets s \<and>
     (pipeline s \<noteq> None \<longrightarrow> pipeline s' \<noteq> None))"

text \<open>
  An example of \<^verbatim>\<open>int()\<close> for the example library below: base 10 on ASCII text. White space
  around the number is dropped, one sign is allowed, then decimal digits, at most 4300 of
  them, where single underscores may stand between digits. This example rejects every text
  with a byte outside ASCII.
\<close>

definition is_space :: "char \<Rightarrow> bool" where
  "is_space c = (c \<in> set [CHR 0x09, CHR 0x0A, CHR 0x0B, CHR 0x0C, CHR 0x0D, CHR 0x20])"

definition is_digit :: "char \<Rightarrow> bool" where
  "is_digit c = (c \<in> set ''0123456789'')"

definition digit_value :: "char \<Rightarrow> nat" where
  "digit_value c = of_char c - 48"

definition strip :: "string \<Rightarrow> string" where
  "strip s = rev (dropWhile is_space (rev (dropWhile is_space s)))"

fun digits :: "nat \<Rightarrow> string \<Rightarrow> nat option" where
  "digits acc [] = Some acc"
| "digits acc (c # cs) =
     (if is_digit c then digits (10 * acc + digit_value c) cs
      else if c = CHR ''_'' then
        (case cs of [] \<Rightarrow> None | d # _ \<Rightarrow> if is_digit d then digits acc cs else None)
      else None)"

definition decimal :: "string \<Rightarrow> nat option" where
  "decimal s = (case s of [] \<Rightarrow> None | c # _ \<Rightarrow> if is_digit c then digits 0 s else None)"

definition ascii_int :: "string \<Rightarrow> error + int" where
  "ascii_int s =
     (case strip s of
        [] \<Rightarrow> Inl (ValueError_of_int s)
      | c # cs \<Rightarrow>
          (let body = (if c = CHR ''-'' \<or> c = CHR ''+'' then cs else c # cs) in
           if 4300 < length (filter is_digit body) then Inl (ValueError_of_int s)
           else
             (case decimal body of
                None \<Rightarrow> Inl (ValueError_of_int s)
              | Some k \<Rightarrow> Inr (if c = CHR ''-'' then - int k else int k))))"

text \<open>
  A library in which loading always succeeds and there is no \<^verbatim>\<open>config.json\<close>, with the
  example of \<^verbatim>\<open>int()\<close> above.
\<close>

definition loaders0 :: "(family, unit) loaders" where
  "loaders0 = \<lparr>int_of_str = ascii_int, config_json = None, from_pretrained = (\<lambda>fam name. Inr fam),
     enable_sequential_cpu_offload = Inr, vae_enable_slicing = Inr, vae_enable_tiling = Inr,
     pipe_to = (\<lambda>t. Inr)\<rparr>"

text \<open>Example environments.\<close>

definition env_no_generation :: environ where
  "env_no_generation = [''ENABLE_IMAGES_GENERATION'' \<mapsto> ''0'']"

definition env_all_off :: environ where
  "env_all_off = [''ENABLE_IMAGES_GENERATION'' \<mapsto> ''0'', ''ENABLE_IMAGE_EDITS'' \<mapsto> ''0'',
     ''ENABLE_IMAGE_VARIATIONS'' \<mapsto> ''0'']"





section \<open>The dispatcher\<close>

text \<open>
  C10. For every object and every request, \<^verbatim>\<open>predict\<close> yields exactly one item and then
  ends. The item is the sentinel string, or the generator object of the handler that
  matches the request type, holding the request; an image is never an item of \<^verbatim>\<open>predict\<close>
  itself.
\<close>

theorem predict_yields_one_item:
  "predict self request = [Text sentinel]
   \<or> (get_item request ''request_type'' PNone = PStr ''generation''
        \<and> predict self request = [Generator Generate_images request])
   \<or> (get_item request ''request_type'' PNone = PStr ''edit''
        \<and> predict self request = [Generator Edit_images request])
   \<or> (get_item request ''request_type'' PNone = PStr ''variation''
        \<and> predict self request = [Generator Generate_variations request])"
  by (simp add: predict_def Let_def)

text \<open>
  C4. When, for each of the three modes, the request type is not that mode or the mode's
  flag is not set, \<^verbatim>\<open>predict\<close> yields the one string \<^verbatim>\<open>Unknown or disabled request type\<close>;
  nothing is raised, and iterating the response makes no library call: no handler runs and
  no pipeline is invoked.
\<close>

theorem predict_sentinel_when_unknown_or_disabled:
  assumes "get_item request ''request_type'' PNone \<noteq> PStr ''generation''
           \<or> \<not> truthy (enable_images_generation self)"
    and "get_item request ''request_type'' PNone \<noteq> PStr ''edit''
           \<or> \<not> truthy (enable_image_edits self)"
    and "get_item request ''request_type'' PNone \<noteq> PStr ''variation''
           \<or> \<not> truthy (enable_image_variations self)"
  shows "predict self request = [Text ''Unknown or disabled request type'']
    \<and> response_calls dz self (predict self request) r = []"
proof -
  from assms have p: "predict self request = [Text sentinel]"
    by (auto simp: predict_def Let_def)
  then show ?thesis by (simp add: sentinel_def)
qed

theorem predict_sentinel_when_unknown_or_disabled_witness:
  "predict self_no_edits edit_request = [Text ''Unknown or disabled request type'']
   \<and> response_calls diffusers0 self_no_edits (predict self_no_edits edit_request) 0 = []"
  using predict_sentinel_when_unknown_or_disabled [of edit_request self_no_edits diffusers0 0]
  by (simp add: get_item_def truthy_def self_no_edits_def ready_def init_def edit_request_def)

section \<open>The handlers\<close>

lemma iterate_calls_no_raise:
  "raised (iterate f ev k r) = None \<Longrightarrow> calls (iterate f ev k r) = replicate k ev"
proof (induction k arbitrary: r)
  case 0
  show ?case by simp
next
  case (Suc k)
  obtain res r' where fr: "f r = (res, r')" by (cases "f r") auto
  show ?case
  proof (cases res)
    case (Inl e)
    with fr Suc.prems show ?thesis by simp
  next
    case (Inr images)
    with fr Suc.prems have "raised (iterate f ev k r') = None" by (simp add: Let_def)
    from Suc.IH[OF this] fr Inr show ?thesis by (simp add: Let_def)
  qed
qed

lemma iterate_no_raise:
  assumes "\<forall>r. \<exists>images r'. f r = (Inr images, r')"
  shows "raised (iterate f ev k r) = None"
proof (induction k arbitrary: r)
  case 0
  show ?case by simp
next
  case (Suc k)
  from assms obtain images r' where "f r = (Inr images, r')" by blast
  with Suc[of r'] show ?case by (simp add: Let_def)
qed

lemma iterate_yielded_length:
  assumes "\<forall>r images r'. f r = (Inr images, r') \<longrightarrow> length images = c"
    and "raised (iterate f ev k r) = None"
  shows "length (yielded (iterate f ev k r)) = c * k"
  using assms(2)
proof (induction k arbitrary: r)
  case 0
  show ?case by simp
next
  case (Suc k)
  obtain res r' where fr: "f r = (res, r')" by (cases "f r") auto
  show ?case
  proof (cases res)
    case (Inl e)
    with fr Suc.prems show ?thesis by simp
  next
    case (Inr images)
    with fr Suc.prems have "raised (iterate f ev k r') = None" by (simp add: Let_def)
    from Suc.IH[OF this] have "length (yielded (iterate f ev k r')) = c * k" .
    moreover from assms(1) fr Inr have "length images = c" by blast
    ultimately show ?thesis using fr Inr by (simp add: Let_def)
  qed
qed

lemma iterate_calls_subset: "set (calls (iterate f ev k r)) \<subseteq> {ev}"
proof (induction k arbitrary: r)
  case 0
  show ?case by simp
next
  case (Suc k)
  obtain res r' where fr: "f r = (res, r')" by (cases "f r") auto
  show ?case
  proof (cases res)
    case (Inl e)
    with fr show ?thesis by simp
  next
    case (Inr images)
    with fr Suc[of r'] show ?thesis by (simp add: Let_def)
  qed
qed

lemma handle_calls_subset:
  "set (calls (handle dz fam kwargs self request r)) \<subseteq> {From_pipe fam, Pipe_call fam kwargs}"
  using iterate_calls_subset[of "pipe_call dz _ kwargs" "Pipe_call fam kwargs"]
  by (auto simp: handle_def Let_def split: sum.splits)

lemma handle_no_raise:
  assumes "raised (handle dz fam kwargs self request r) = None"
  obtains view k where "from_pipe dz fam (pipeline self) = Inr view"
    and "iteration_count request (max_n self) = Inr k"
    and "handle dz fam kwargs self request r =
       (iterate (pipe_call dz view kwargs) (Pipe_call fam kwargs) k r)
         \<lparr>calls := From_pipe fam # calls (iterate (pipe_call dz view kwargs) (Pipe_call fam kwargs) k r)\<rparr>"
    and "raised (iterate (pipe_call dz view kwargs) (Pipe_call fam kwargs) k r) = None"
proof (cases "from_pipe dz fam (pipeline self)")
  case (Inl e)
  with assms show ?thesis by (simp add: handle_def)
next
  case (Inr view)
  show ?thesis
  proof (cases "iteration_count request (max_n self)")
    case (Inl e)
    with Inr assms show ?thesis by (simp add: handle_def)
  next
    case k: (Inr k)
    from Inr k assms show ?thesis
      by (intro that[of view k]) (simp_all add: handle_def Let_def)
  qed
qed

lemma handle_invocations:
  assumes "raised (handle dz fam kwargs self request r) = None"
    and "iteration_count request (max_n self) = Inr k"
  shows "invocations (calls (handle dz fam kwargs self request r)) = k"
  using assms(1)
proof (rule handle_no_raise)
  fix view k'
  assume k': "iteration_count request (max_n self) = Inr k'"
    and h: "handle dz fam kwargs self request r =
       (iterate (pipe_call dz view kwargs) (Pipe_call fam kwargs) k' r)
         \<lparr>calls := From_pipe fam # calls (iterate (pipe_call dz view kwargs) (Pipe_call fam kwargs) k' r)\<rparr>"
    and n: "raised (iterate (pipe_call dz view kwargs) (Pipe_call fam kwargs) k' r) = None"
  from k' assms(2) have "k' = k" by simp
  with h iterate_calls_no_raise[OF n] show ?thesis by (simp add: invocations_def)
qed

lemma handle_yielded_length:
  assumes "\<forall>view r images r'. from_pipe dz fam (pipeline self) = Inr view
      \<and> pipe_call dz view kwargs r = (Inr images, r') \<longrightarrow> length images = c"
    and "raised (handle dz fam kwargs self request r) = None"
  shows "\<exists>k. iteration_count request (max_n self) = Inr k
      \<and> length (yielded (handle dz fam kwargs self request r)) = c * k"
  using assms(2)
proof (rule handle_no_raise)
  fix view k
  assume v: "from_pipe dz fam (pipeline self) = Inr view"
    and k: "iteration_count request (max_n self) = Inr k"
    and h: "handle dz fam kwargs self request r =
       (iterate (pipe_call dz view kwargs) (Pipe_call fam kwargs) k r)
         \<lparr>calls := From_pipe fam # calls (iterate (pipe_call dz view kwargs) (Pipe_call fam kwargs) k r)\<rparr>"
    and n: "raised (iterate (pipe_call dz view kwargs) (Pipe_call fam kwargs) k r) = None"
  from assms(1) v have "\<forall>r images r'. pipe_call dz view kwargs r = (Inr images, r') \<longrightarrow> length images = c"
    by blast
  from iterate_yielded_length[OF this n] h k show ?thesis by simp
qed

lemma handle_yielded_raised_early:
  assumes "from_pipe dz fam (pipeline self) = Inl e \<or> iteration_count request (max_n self) = Inl e"
  shows "yielded (handle dz fam kwargs self request r) = []"
  using assms by (auto simp: handle_def split: sum.splits)

lemma handle_no_raise_if_calls_succeed:
  assumes "from_pipe dz fam (pipeline self) = Inr view"
    and "iteration_count request (max_n self) = Inr k"
    and "\<forall>r. \<exists>images r'. pipe_call dz view kwargs r = (Inr images, r')"
  shows "raised (handle dz fam kwargs self request r) = None"
  using assms(1,2) iterate_no_raise[OF assms(3), of "Pipe_call fam kwargs" k r]
  by (simp add: handle_def Let_def)

text \<open>
  C3, as amended. When \<^verbatim>\<open>max_n\<close> is \<open>m\<close>, the request's \<^verbatim>\<open>n\<close> is the integer \<open>n\<close> (1 when the
  key is absent) and the handler ends without an exception, each of the three handlers
  invokes the pipeline \<open>min n m\<close> times when that number is positive and not at all
  otherwise: there is no lower clamp to 1. Where \<open>n\<close> and \<open>m\<close> are both at least 1 this is the
  specification's clamp to the interval from 1 to \<open>m\<close>; a generation request with \<open>n = 3\<close>
  and \<open>m = 2\<close> makes two calls.
\<close>

theorem invocations_are_min_of_n_and_max_n:
  assumes "max_n self = Some m"
    and "get_item request ''n'' (PInt 1) = PInt n"
    and "raised (run_item dz self (Generator h request) r) = None"
  shows "invocations (calls (run_item dz self (Generator h request) r)) = nat (min n m)
    \<and> (request ''n'' = None \<longrightarrow> n = 1)
    \<and> (1 \<le> n \<and> 1 \<le> m \<longrightarrow> int (invocations (calls (run_item dz self (Generator h request) r)))
          = clamp_spec 1 m n)"
proof -
  from assms(1,2) have k: "iteration_count request (max_n self) = Inr (nat (min n m))"
    by (simp add: iteration_count_def)
  have main: "invocations (calls (run_item dz self (Generator h request) r)) = nat (min n m)"
  proof (cases h)
    case Generate_images
    with assms(3) show ?thesis
      by (simp add: generate_images_def handle_invocations[OF _ k])
  next
    case Edit_images
    with assms(3) show ?thesis
      by (simp add: edit_images_def handle_invocations[OF _ k])
  next
    case Generate_variations
    with assms(3) show ?thesis
      by (simp add: generate_variations_def handle_invocations[OF _ k])
  qed
  from assms(2) have dflt: "request ''n'' = None \<longrightarrow> n = 1"
    by (auto simp: get_item_def)
  from main dflt show ?thesis by (auto simp: clamp_spec_def)
qed

text \<open>
  A generation request with \<open>n = 3\<close> under \<open>max_n = 2\<close>: two pipeline calls, also with the
  library that raises on a missing image, since a generation call passes none.
\<close>

theorem invocations_are_min_of_n_and_max_n_witness:
  "invocations (calls (run_item diffusers_strict (ready\<lparr>max_n := Some 2\<rparr>)
      (Generator Generate_images three_request) 0)) = 2"
proof -
  have m: "max_n (ready\<lparr>max_n := Some 2\<rparr>) = Some 2" by simp
  have n: "get_item three_request ''n'' (PInt 1) = PInt 3"
    by (simp add: three_request_def get_item_def)
  have k: "iteration_count three_request (max_n (ready\<lparr>max_n := Some 2\<rparr>)) = Inr (Suc (Suc 0))"
    by (simp add: iteration_count_def n)
  have v: "from_pipe diffusers_strict Text2Image (pipeline (ready\<lparr>max_n := Some 2\<rparr>)) = Inr Text2Image"
    by (simp add: diffusers_strict_def ready_def init_def)
  have "\<forall>r. \<exists>images r'. pipe_call diffusers_strict Text2Image
      [(''prompt'', get_item three_request ''prompt'' (PStr ''A beautiful landscape''))] r
      = (Inr images, r')"
    by (simp add: diffusers_strict_def three_request_def get_item_def)
  from handle_no_raise_if_calls_succeed[OF v k this]
  have ok: "raised (run_item diffusers_strict (ready\<lparr>max_n := Some 2\<rparr>)
      (Generator Generate_images three_request) 0) = None"
    by (simp add: generate_images_def)
  from invocations_are_min_of_n_and_max_n[OF m n ok] show ?thesis by simp
qed

text \<open>
  C3 as stated fails: a generation request with \<open>n = 0\<close> under \<open>max_n = 10\<close> invokes the
  pipeline zero times, where the clamp to the interval from 1 to 10 gives one.
\<close>

theorem clamp_lower_bound_counterexample:
  "invocations (calls (generate_images diffusers0 ready zero_request 0)) = 0
   \<and> clamp_spec 1 10 0 = 1
   \<and> int (invocations (calls (generate_images diffusers0 ready zero_request 0))) \<noteq> clamp_spec 1 10 0"
  by (simp add: generate_images_def handle_def diffusers0_def ready_def init_def
      zero_request_def iteration_count_def get_item_def invocations_def clamp_spec_def)


text \<open>
  C9, as amended. Let the number of images a successful pipeline call returns, for the view
  and the keyword arguments the generation handler uses, be the same \<open>c\<close> in every sampler
  state. Then two runs of the generation handler on the same object and request, from
  whatever sampler states, yield sequences of the same length when both end without an
  exception, and also whenever those pipeline calls cannot fail. A run that ends without an
  exception yields \<open>c\<close> images for each of its iterations. The contents may differ.
\<close>

theorem generation_lengths_equal_for_fixed_images_per_call:
  assumes "kw = [(''prompt'', get_item request ''prompt'' (PStr ''A beautiful landscape''))]"
    and "\<forall>view r images r'. from_pipe dz Text2Image (pipeline self) = Inr view
          \<and> pipe_call dz view kw r = (Inr images, r') \<longrightarrow> length images = c"
  shows "(raised (generate_images dz self request r1) = None
          \<and> raised (generate_images dz self request r2) = None
        \<longrightarrow> length (yielded (generate_images dz self request r1))
          = length (yielded (generate_images dz self request r2)))
    \<and> ((\<forall>view r. from_pipe dz Text2Image (pipeline self) = Inr view
            \<longrightarrow> (\<exists>images r'. pipe_call dz view kw r = (Inr images, r')))
        \<longrightarrow> length (yielded (generate_images dz self request r1))
          = length (yielded (generate_images dz self request r2)))
    \<and> (\<forall>k. raised (generate_images dz self request r1) = None
          \<and> iteration_count request (max_n self) = Inr k
        \<longrightarrow> length (yielded (generate_images dz self request r1)) = c * k)"
proof -
  have g: "generate_images dz self request r = handle dz Text2Image kw self request r" for r
    by (simp add: generate_images_def assms(1))
  have len: "\<exists>k. iteration_count request (max_n self) = Inr k
      \<and> length (yielded (generate_images dz self request r)) = c * k"
    if "raised (generate_images dz self request r) = None" for r
    using handle_yielded_length[OF assms(2)] that unfolding g by blast
  have a: "raised (generate_images dz self request r1) = None
          \<and> raised (generate_images dz self request r2) = None
        \<longrightarrow> length (yielded (generate_images dz self request r1))
          = length (yielded (generate_images dz self request r2))"
    using len[of r1] len[of r2] by auto
  have b: "length (yielded (generate_images dz self request r1))
          = length (yielded (generate_images dz self request r2))"
    if ok: "\<forall>view r. from_pipe dz Text2Image (pipeline self) = Inr view
            \<longrightarrow> (\<exists>images r'. pipe_call dz view kw r = (Inr images, r'))"
  proof (cases "from_pipe dz Text2Image (pipeline self)")
    case (Inl e)
    then have "yielded (handle dz Text2Image kw self request r) = []" for r
      by (intro handle_yielded_raised_early[of _ _ _ e]) simp
    then show ?thesis unfolding g by simp
  next
    case (Inr view)
    show ?thesis
    proof (cases "iteration_count request (max_n self)")
      case (Inl e)
      then have "yielded (handle dz Text2Image kw self request r) = []" for r
        by (intro handle_yielded_raised_early[of _ _ _ e]) simp
      then show ?thesis unfolding g by simp
    next
      case k: (Inr k)
      from ok Inr have "\<forall>r. \<exists>images r'. pipe_call dz view kw r = (Inr images, r')" by blast
      from handle_no_raise_if_calls_succeed[OF Inr k this]
      have "raised (generate_images dz self request r) = None" for r
        unfolding g .
      with a show ?thesis by blast
    qed
  qed
  have c: "\<forall>k. raised (generate_images dz self request r1) = None
          \<and> iteration_count request (max_n self) = Inr k
        \<longrightarrow> length (yielded (generate_images dz self request r1)) = c * k"
    using len[of r1] by auto
  from a b c show ?thesis by blast
qed

text \<open>
  One image per call, \<open>n = 3\<close>, \<open>max_n = 10\<close>: three images from either sampler state, with
  the library that raises on a missing image.
\<close>

theorem generation_lengths_equal_for_fixed_images_per_call_witness:
  "length (yielded (generate_images diffusers_strict ready three_request 0))
     = length (yielded (generate_images diffusers_strict ready three_request 7))
   \<and> length (yielded (generate_images diffusers_strict ready three_request 0)) = 3"
proof -
  have kw: "[(''prompt'', PStr ''A beautiful landscape'')] =
     [(''prompt'', get_item three_request ''prompt'' (PStr ''A beautiful landscape'' :: nat pyval))]"
    by (simp add: three_request_def get_item_def)
  have fixed: "\<forall>view r images r'. from_pipe diffusers_strict Text2Image (pipeline ready) = Inr view
      \<and> pipe_call diffusers_strict view [(''prompt'', PStr ''A beautiful landscape'')] r = (Inr images, r')
      \<longrightarrow> length images = 1"
    by (auto simp: diffusers_strict_def)
  have ok: "\<forall>view r. from_pipe diffusers_strict Text2Image (pipeline ready) = Inr view
      \<longrightarrow> (\<exists>images r'. pipe_call diffusers_strict view [(''prompt'', PStr ''A beautiful landscape'')] r
            = (Inr images, r'))"
    by (simp add: diffusers_strict_def)
  have v: "from_pipe diffusers_strict Text2Image (pipeline ready) = Inr Text2Image"
    by (simp add: diffusers_strict_def ready_def init_def)
  have k: "iteration_count three_request (max_n ready) = Inr 3"
    by (simp add: iteration_count_def three_request_def get_item_def ready_def init_def)
  have "\<forall>r. \<exists>images r'. pipe_call diffusers_strict Text2Image
      [(''prompt'', PStr ''A beautiful landscape'')] r = (Inr images, r')"
    by (simp add: diffusers_strict_def)
  from handle_no_raise_if_calls_succeed[OF v k this]
  have n: "raised (generate_images diffusers_strict ready three_request 0) = None"
    by (simp add: generate_images_def kw[symmetric])
  from generation_lengths_equal_for_fixed_images_per_call
    [OF kw fixed, of 0 7] ok n k
  show ?thesis by simp
qed

text \<open>
  C9 as stated fails: the handler yields whatever each pipeline call returns, so with a
  pipeline that returns one image on its first call and two on its second, the same request
  handled twice in a row yields one image and then two.
\<close>

theorem generation_lengths_counterexample:
  "length (yielded (generate_images diffusers_varying ready plain_request 0)) = 1
   \<and> sampler (generate_images diffusers_varying ready plain_request 0) = 1
   \<and> length (yielded (generate_images diffusers_varying ready plain_request 1)) = 2
   \<and> length (yielded (generate_images diffusers_varying ready plain_request 0))
     \<noteq> length (yielded (generate_images diffusers_varying ready plain_request
          (sampler (generate_images diffusers_varying ready plain_request 0))))"
proof -
  have k: "iteration_count plain_request (max_n ready) = Inr (Suc 0)"
    by (simp add: iteration_count_def plain_request_def get_item_def ready_def init_def)
  have v: "from_pipe diffusers_varying Text2Image (pipeline ready) = Inr Text2Image"
    by (simp add: diffusers_varying_def ready_def init_def)
  have run: "generate_images diffusers_varying ready plain_request r =
     \<lparr>yielded = replicate (Suc r) r, raised = None,
      calls = [From_pipe Text2Image, Pipe_call Text2Image [(''prompt'', PStr ''a cat'')]],
      sampler = Suc r\<rparr>" for r
    by (simp add: generate_images_def handle_def k v Let_def)
       (simp add: diffusers_varying_def plain_request_def get_item_def)
  show ?thesis by (simp add: run)
qed

text \<open>
  C8. For a variation request without the key \<^verbatim>\<open>image\<close>, every pipeline call the handler
  makes carries \<^verbatim>\<open>image=None\<close>: nothing is checked or substituted before the call. When the
  pipeline raises on that call, the handler raises the same exception and has yielded no
  image.
\<close>

theorem variation_passes_missing_image_to_pipeline:
  assumes "request ''image'' = None"
    and "kw = [(''prompt'', get_item request ''prompt'' (PStr ''Generate variations'')),
               (''image'', PNone)]"
  shows "(\<forall>ev \<in> set (calls (generate_variations dz self request r)).
            is_pipe_call ev \<longrightarrow> ev = Pipe_call Image2Image kw)
    \<and> (\<forall>view k e r'. from_pipe dz Image2Image (pipeline self) = Inr view
          \<and> iteration_count request (max_n self) = Inr (Suc k)
          \<and> pipe_call dz view kw r = (Inl e, r')
        \<longrightarrow> generate_variations dz self request r =
            \<lparr>yielded = [], raised = Some e,
             calls = [From_pipe Image2Image, Pipe_call Image2Image kw], sampler = r'\<rparr>)"
proof -
  from assms have gv: "generate_variations dz self request r = handle dz Image2Image kw self request r"
    by (simp add: generate_variations_def get_item_def)
  have a: "\<forall>ev \<in> set (calls (generate_variations dz self request r)).
            is_pipe_call ev \<longrightarrow> ev = Pipe_call Image2Image kw"
    using handle_calls_subset[of dz Image2Image kw self request r] unfolding gv by auto
  have b: "\<forall>view k e r'. from_pipe dz Image2Image (pipeline self) = Inr view
          \<and> iteration_count request (max_n self) = Inr (Suc k)
          \<and> pipe_call dz view kw r = (Inl e, r')
        \<longrightarrow> generate_variations dz self request r =
            \<lparr>yielded = [], raised = Some e,
             calls = [From_pipe Image2Image, Pipe_call Image2Image kw], sampler = r'\<rparr>"
    unfolding gv by (simp add: handle_def Let_def)
  from a b show ?thesis by blast
qed

text \<open>With a pipeline that rejects a missing image, the request raises on its first call.\<close>

theorem variation_passes_missing_image_to_pipeline_witness:
  "generate_variations diffusers_strict ready variation_request 0 =
     \<lparr>yielded = [], raised = Some (LibraryError ''image is required''),
      calls = [From_pipe Image2Image,
        Pipe_call Image2Image [(''prompt'', PStr ''Generate variations''), (''image'', PNone)]],
      sampler = 0\<rparr>"
proof -
  have i: "variation_request ''image'' = None" by (simp add: variation_request_def)
  have kw: "[(''prompt'', PStr ''Generate variations''), (''image'', PNone)] =
     [(''prompt'', get_item variation_request ''prompt'' (PStr ''Generate variations'')),
      (''image'', PNone :: nat pyval)]"
    by (simp add: variation_request_def get_item_def)
  have v: "from_pipe diffusers_strict Image2Image (pipeline ready) = Inr Image2Image"
    by (simp add: diffusers_strict_def ready_def init_def)
  have k: "iteration_count variation_request (max_n ready) = Inr (Suc 0)"
    by (simp add: iteration_count_def variation_request_def get_item_def ready_def init_def)
  have c: "pipe_call diffusers_strict Image2Image
      [(''prompt'', PStr ''Generate variations''), (''image'', PNone)] 0
      = (Inl (LibraryError ''image is required''), 0)"
    by (simp add: diffusers_strict_def)
  from variation_passes_missing_image_to_pipeline
    [OF i kw, of diffusers_strict ready 0] v k c
  show ?thesis by blast
qed

section \<open>Reading the environment and loading the pipeline\<close>

























lemma read_settings_success:
  assumes "read_settings to_int env self = (None, s)"
  shows "\<exists>n a b c g d v.
     getenv_int to_int env ''MAX_N'' 10 = Inr n \<and>
     getenv_int to_int env ''ENABLE_CPU_OFFLOAD'' 0 = Inr a \<and>
     getenv_int to_int env ''ENABLE_VAE_SLICING'' 0 = Inr b \<and>
     getenv_int to_int env ''ENABLE_VAE_TILING'' 0 = Inr c \<and>
     getenv_int to_int env ''ENABLE_IMAGES_GENERATION'' 1 = Inr g \<and>
     getenv_int to_int env ''ENABLE_IMAGE_EDITS'' 1 = Inr d \<and>
     getenv_int to_int env ''ENABLE_IMAGE_VARIATIONS'' 1 = Inr v \<and>
     s = self\<lparr>model_name := Some (getenv_str env ''MODEL'' ''default-model''),
        max_n := Some n, enable_cpu_offload := Some (a \<noteq> 0),
        enable_vae_slicing := Some (b \<noteq> 0), enable_vae_tiling := Some (c \<noteq> 0),
        enable_images_generation := Some (g \<noteq> 0), enable_image_edits := Some (d \<noteq> 0),
        enable_image_variations := Some (v \<noteq> 0)\<rparr>"
  using assms unfolding read_settings_def Let_def
  by (auto split: sum.splits)

lemma then_run_elim:
  assumes "then_run x f = (r, s', log)"
  shows "(\<exists>e. x = (Some e, s', log) \<and> r = Some e)
       \<or> (\<exists>s l l'. x = (None, s, l) \<and> f s = (r, s', l') \<and> log = l @ l')"
proof (cases x)
  case (fields err s l)
  show ?thesis
  proof (cases err)
    case None
    with fields assms show ?thesis by (auto split: prod.splits)
  next
    case (Some e)
    with fields assms show ?thesis by auto
  qed
qed


lemma same_settings_trans: "same_settings a b \<Longrightarrow> same_settings b c \<Longrightarrow> same_settings a c"
  by (simp add: same_settings_def)

lemma tame_then_run:
  assumes "tame s x" and "\<And>s1. tame s1 (f s1)"
  shows "tame s (then_run x f)"
proof (cases x)
  case (fields err s1 l)
  show ?thesis
  proof (cases err)
    case None
    obtain r s2 l2 where f: "f s1 = (r, s2, l2)" by (cases "f s1") auto
    from assms(2)[of s1] f have "tame s1 (r, s2, l2)" by simp
    with assms(1) fields None f show ?thesis
      by (auto simp: tame_def intro: same_settings_trans)
  next
    case (Some e)
    with fields assms(1) show ?thesis by simp
  qed
qed

lemma tame_on_pipeline:
  "\<not> is_from_pretrained ev \<Longrightarrow> tame s (on_pipeline f ev s)"
  by (auto simp: tame_def on_pipeline_def same_settings_def split: option.splits sum.splits)

lemma tame_when_set:
  "(\<And>s1. tame s1 (f s1)) \<Longrightarrow> tame s (when_set flag f s)"
  by (auto simp: when_set_def tame_def same_settings_def)

lemma tame_apply_settings: "tame s (apply_settings ld s)"
  unfolding apply_settings_def
  by (intro tame_then_run tame_when_set tame_on_pipeline) simp_all

lemma load_presets_cases:
  "load_presets ld s = (r, s', log) \<Longrightarrow>
     log = [] \<and> same_settings s s' \<and> pipeline s' = pipeline s \<and>
     (r = None \<longleftrightarrow> (\<forall>e. config_json ld \<noteq> Some (Inl e)))"
  by (auto simp: load_presets_def same_settings_def split: option.splits sum.splits)

lemma construct_cases:
  "construct ld fam s = (r, s', log) \<Longrightarrow>
     log = [From_pretrained fam (model_name s)] \<and> same_settings s s' \<and>
     (case from_pretrained ld fam (model_name s) of
        Inl e \<Rightarrow> r = Some e \<and> s' = s
      | Inr p \<Rightarrow> r = None \<and> pipeline s' = Some p)"
  by (auto simp: construct_def same_settings_def split: sum.splits)

lemma load_pipeline_enabled:
  assumes "load_pipeline ld s1 = (r, s2, l2)"
    and "truthy (enable_images_generation s1) \<or> truthy (enable_image_edits s1)
         \<or> truthy (enable_image_variations s1)"
  shows "construct ld (priority_family (truthy (enable_images_generation s1))
      (truthy (enable_image_edits s1)) (truthy (enable_image_variations s1))) s1 = (r, s2, l2)"
  using assms by (auto simp: load_pipeline_def priority_family_def)

lemma load_pipeline_disabled:
  assumes "\<not> truthy (enable_images_generation s1)" "\<not> truthy (enable_image_edits s1)"
    "\<not> truthy (enable_image_variations s1)"
  shows "load_pipeline ld s1 = (Some (ValueError no_pipeline_message), s1, [])"
  using assms by (simp add: load_pipeline_def)

lemma same_settings_fields:
  assumes "same_settings a b"
  shows "model_name b = model_name a" "max_n b = max_n a"
    "enable_cpu_offload b = enable_cpu_offload a" "enable_vae_slicing b = enable_vae_slicing a"
    "enable_vae_tiling b = enable_vae_tiling a"
    "enable_images_generation b = enable_images_generation a"
    "enable_image_edits b = enable_image_edits a"
    "enable_image_variations b = enable_image_variations a"
  using assms by (simp_all add: same_settings_def)

lemma setup_api_elim:
  assumes "setup_api ld env device self = (err, self', log :: 'i event list)"
  obtains
    (settings) e where "read_settings (int_of_str ld) env self = (Some e, self')" "err = Some e" "log = []"
  | (presets) s e where "read_settings (int_of_str ld) env self = (None, s)"
      "load_presets ld s = (Some e, self', [] :: 'i event list)" "err = Some e" "log = []"
  | (pipeline) s s1 e where "read_settings (int_of_str ld) env self = (None, s)"
      "load_presets ld s = (None, s1, [] :: 'i event list)" "load_pipeline ld s1 = (Some e, self', log)"
      "err = Some e"
  | (placed) s s1 s2 l2 l3 where "read_settings (int_of_str ld) env self = (None, s)"
      "load_presets ld s = (None, s1, [] :: 'i event list)" "load_pipeline ld s1 = (None, s2, l2)"
      "apply_settings ld s2 = (err, self', l3)" "log = l2 @ l3"
proof (cases "read_settings (int_of_str ld) env self")
  case (Pair r s)
  show ?thesis
  proof (cases r)
    case (Some e)
    with Pair assms have "err = Some e" "self' = s" "log = []"
      by (simp_all add: setup_api_def)
    with Pair Some show ?thesis using settings by simp
  next
    case None
    with Pair assms have run:
      "then_run (then_run (load_presets ld s) (load_pipeline ld)) (apply_settings ld)
         = (err, self', log)"
      by (simp add: setup_api_def)
    obtain r1 s1 l1 where lp: "load_presets ld s = (r1, s1, l1 :: 'i event list)"
      using prod_cases3 by blast
    from load_presets_cases[OF lp] have l1: "l1 = []" by simp
    show ?thesis
    proof (cases r1)
      case (Some e)
      with run lp l1 have "err = Some e" "self' = s1" "log = []" by simp_all
      with Pair None lp l1 Some show ?thesis using presets by simp
    next
      case r1: None
      obtain r2 s2 l2 where pl: "load_pipeline ld s1 = (r2, s2, l2 :: 'i event list)"
        using prod_cases3 by blast
      show ?thesis
      proof (cases r2)
        case (Some e)
        with run lp l1 r1 pl have "err = Some e" "self' = s2" "log = l2" by simp_all
        with Pair None lp l1 r1 pl Some show ?thesis using pipeline by simp
      next
        case r2: None
        obtain r3 s3 l3 where ap: "apply_settings ld s2 = (r3, s3, l3 :: 'i event list)"
          using prod_cases3 by blast
        with run lp l1 r1 pl r2 have "err = r3" "self' = s3" "log = l2 @ l3" by simp_all
        with Pair None lp l1 r1 pl r2 ap show ?thesis using placed by simp
      qed
    qed
  qed
qed

lemma setup_api_enabled:
  assumes "read_settings (int_of_str ld) env self = (None, s)"
    and "\<forall>e. config_json ld \<noteq> Some (Inl e)"
    and "truthy (enable_images_generation s) \<or> truthy (enable_image_edits s)
         \<or> truthy (enable_image_variations s)"
    and "setup_api ld env device self = (err, self', log :: 'i event list)"
    and "fam = priority_family (truthy (enable_images_generation s))
           (truthy (enable_image_edits s)) (truthy (enable_image_variations s))"
  shows "filter is_from_pretrained log = [From_pretrained fam (model_name s)] \<and>
    (case from_pretrained ld fam (model_name s) of
           Inl e \<Rightarrow> err = Some e \<and> pipeline self' = pipeline self
         | Inr p \<Rightarrow> pipeline self' \<noteq> None)"
  using assms(4)
proof (cases rule: setup_api_elim)
  case (settings e)
  with assms(1) show ?thesis by simp
next
  case (presets s0 e)
  with assms(1) have "load_presets ld s = (Some e, self', [] :: 'i event list)" by simp
  from load_presets_cases[OF this] assms(2) show ?thesis by simp
next
  case (pipeline s0 s1 e)
  with assms(1) have lp: "load_presets ld s = (None, s1, [] :: 'i event list)" by simp
  from load_presets_cases[OF lp] have ss: "same_settings s s1" and p1: "pipeline s1 = pipeline s"
    by simp_all
  note eqs = same_settings_fields[OF ss]
  from read_settings_success[OF assms(1)] have p0: "pipeline s = pipeline self" by auto
  from assms(3) have en: "truthy (enable_images_generation s1) \<or> truthy (enable_image_edits s1)
         \<or> truthy (enable_image_variations s1)" by (simp add: eqs)
  from load_pipeline_enabled[OF pipeline(3) en] have c: "construct ld fam s1 = (Some e, self', log)"
    by (simp add: eqs assms(5))
  show ?thesis
  proof (cases "from_pretrained ld fam (model_name s)")
    case (Inl e')
    with c have "e = e'" "self' = s1" "log = [From_pretrained fam (model_name s)]"
      by (simp_all add: construct_def eqs)
    with Inl pipeline(4) p1 p0 show ?thesis by simp
  next
    case (Inr q)
    with c show ?thesis by (simp add: construct_def eqs)
  qed
next
  case (placed s0 s1 s2 l2 l3)
  with assms(1) have lp: "load_presets ld s = (None, s1, [] :: 'i event list)" by simp
  from load_presets_cases[OF lp] have ss: "same_settings s s1" by simp
  note eqs = same_settings_fields[OF ss]
  from assms(3) have en: "truthy (enable_images_generation s1) \<or> truthy (enable_image_edits s1)
         \<or> truthy (enable_image_variations s1)" by (simp add: eqs)
  from load_pipeline_enabled[OF placed(3) en] have c: "construct ld fam s1 = (None, s2, l2)"
    by (simp add: eqs assms(5))
  have "tame s2 (err, self', l3)"
    unfolding placed(4)[symmetric] by (rule tame_apply_settings)
  then have t: "filter is_from_pretrained l3 = []" "pipeline s2 \<noteq> None \<longrightarrow> pipeline self' \<noteq> None"
    by (simp_all add: tame_def)
  show ?thesis
  proof (cases "from_pretrained ld fam (model_name s)")
    case (Inl e')
    with c show ?thesis by (simp add: construct_def eqs)
  next
    case (Inr q)
    with c have "l2 = [From_pretrained fam (model_name s)]" "pipeline s2 = Some q"
      by (auto simp: construct_def eqs)
    with Inr t placed(5) show ?thesis by simp
  qed
qed

lemmas ascii_int_defs = ascii_int_def strip_def is_space_def decimal_def is_digit_def
  digit_value_def Let_def

lemma ascii_int_0: "ascii_int ''0'' = Inr 0"
  by (simp add: ascii_int_defs)




lemma read_settings_empty:
  "read_settings to_int Map.empty (init :: (family, unit) litfusion) =
     (None, init\<lparr>enable_image_variations := Some True, enable_image_edits := Some True,
        enable_images_generation := Some True, enable_vae_tiling := Some False,
        enable_vae_slicing := Some False, enable_cpu_offload := Some False,
        max_n := Some 10, model_name := Some ''default-model''\<rparr>)"
  by (simp add: read_settings_def getenv_int_def getenv_str_def init_def)

lemma setup_api_empty:
  "setup_api loaders0 Map.empty ''cuda'' init =
     (None, ready, [From_pretrained Text2Image (Some ''default-model''), To Float16, To Cuda])"
  by (simp add: setup_api_def read_settings_empty)
     (simp add: init_def load_presets_def loaders0_def load_pipeline_def truthy_def
        construct_def apply_settings_def when_set_def on_pipeline_def ready_def)



lemma setup_api_disabled:
  assumes "read_settings (int_of_str ld) env self = (None, s)"
    and "\<not> truthy (enable_images_generation s)" "\<not> truthy (enable_image_edits s)"
      "\<not> truthy (enable_image_variations s)"
    and "setup_api ld env device self = (err, self', log :: 'i event list)"
  shows "(\<exists>e. err = Some e) \<and> log = [] \<and> pipeline self' = pipeline self \<and>
     ((\<forall>e. config_json ld \<noteq> Some (Inl e)) \<longrightarrow> err = Some (ValueError no_pipeline_message))"
proof -
  from read_settings_success[OF assms(1)] have p0: "pipeline s = pipeline self" by auto
  have off: "load_pipeline ld s1 = (Some (ValueError no_pipeline_message), s1, [] :: 'i event list)"
    if "same_settings s s1" for s1
    using assms(2-4) same_settings_fields[OF that] by (simp add: load_pipeline_disabled)
  from assms(5) show ?thesis
  proof (cases rule: setup_api_elim)
    case (settings e)
    with assms(1) show ?thesis by simp
  next
    case (presets s0 e)
    with assms(1) have "load_presets ld s = (Some e, self', [] :: 'i event list)" by simp
    from load_presets_cases[OF this] presets(3,4) p0 show ?thesis by auto
  next
    case (pipeline s0 s1 e)
    with assms(1) have lp: "load_presets ld s = (None, s1, [] :: 'i event list)" by simp
    from load_presets_cases[OF lp] have ss: "same_settings s s1" and p1: "pipeline s1 = pipeline s"
      by simp_all
    from off[OF ss] pipeline(3,4) p1 p0 show ?thesis by simp
  next
    case (placed s0 s1 s2 l2 l3)
    with assms(1) have lp: "load_presets ld s = (None, s1, [] :: 'i event list)" by simp
    from load_presets_cases[OF lp] have ss: "same_settings s s1" by simp
    from off[OF ss] placed(3) show ?thesis by simp
  qed
qed


text \<open>
  C1. When the settings were read without error, \<^verbatim>\<open>config.json\<close> did not fail to load and at
  least one mode flag is set, \<^verbatim>\<open>setup\<close> calls \<^verbatim>\<open>from_pretrained\<close> exactly once, with the
  configured model name, for the family chosen by priority: text-to-image when generation is
  enabled, otherwise inpainting when edits are enabled, otherwise image-to-image. When that
  call succeeds the pipeline handle is set; when it raises, \<^verbatim>\<open>setup\<close> raises the same
  exception and the handle is as it was.
\<close>

theorem setup_constructs_one_pipeline_by_priority:
  assumes "read_settings (int_of_str ld) env self = (None, s)"
    and "\<forall>e. config_json ld \<noteq> Some (Inl e)"
    and "truthy (enable_images_generation s) \<or> truthy (enable_image_edits s)
         \<or> truthy (enable_image_variations s)"
    and "setup_api ld env device self = (err, self', log)"
    and "fam = (if truthy (enable_images_generation s) then Text2Image
                else if truthy (enable_image_edits s) then Inpainting else Image2Image)"
  shows "filter is_from_pretrained log = [From_pretrained fam (model_name s)] \<and>
    (case from_pretrained ld fam (model_name s) of
           Inl e \<Rightarrow> err = Some e \<and> pipeline self' = pipeline self
         | Inr p \<Rightarrow> pipeline self' \<noteq> None)"
  using setup_api_enabled[OF assms(1-4)] assms(5) by (simp add: priority_family_def)

text \<open>Generation switched off, edits and variations on by default: inpainting is loaded.\<close>

theorem setup_constructs_one_pipeline_by_priority_witness:
  "filter is_from_pretrained
     (snd (snd (setup_api loaders0 env_no_generation ''cuda'' init :: (family, unit, nat) step)))
   = [From_pretrained Inpainting (Some ''default-model'')]"
proof -
  have rs: "read_settings (int_of_str loaders0) env_no_generation (init :: (family, unit) litfusion) =
     (None, init\<lparr>enable_image_variations := Some True, enable_image_edits := Some True,
        enable_images_generation := Some False, enable_vae_tiling := Some False,
        enable_vae_slicing := Some False, enable_cpu_offload := Some False,
        max_n := Some 10, model_name := Some ''default-model''\<rparr>)"
    by (simp add: read_settings_def getenv_int_def getenv_str_def init_def env_no_generation_def
        loaders0_def ascii_int_0)
  obtain err self' log where st:
    "setup_api loaders0 env_no_generation ''cuda'' init = (err, self', log :: nat event list)"
    using prod_cases3 by blast
  have cfg: "\<forall>e. config_json loaders0 \<noteq> Some (Inl e)" by (simp add: loaders0_def)
  from setup_constructs_one_pipeline_by_priority[OF rs cfg _ st, of Inpainting] st
  show ?thesis by (simp add: truthy_def init_def)
qed

text \<open>
  C2. When the settings were read without error and none of the three mode flags is set,
  \<^verbatim>\<open>setup\<close> raises, makes no library call at all, so no pipeline is constructed, and leaves
  the pipeline handle as it was (unset, for a fresh object). Unless loading \<^verbatim>\<open>config.json\<close>
  raised first, the exception is the \<^verbatim>\<open>ValueError\<close> of line 54.
\<close>

theorem setup_raises_when_no_mode_enabled:
  assumes "read_settings (int_of_str ld) env self = (None, s)"
    and "\<not> truthy (enable_images_generation s)" and "\<not> truthy (enable_image_edits s)"
    and "\<not> truthy (enable_image_variations s)"
    and "setup_api ld env device self = (err, self', log)"
  shows "(\<exists>e. err = Some e) \<and> log = [] \<and> pipeline self' = pipeline self \<and>
     ((\<forall>e. config_json ld \<noteq> Some (Inl e)) \<longrightarrow> err = Some (ValueError no_pipeline_message))"
  using setup_api_disabled[OF assms] .

text \<open>The three flags set to \<^verbatim>\<open>0\<close> on a fresh object.\<close>

theorem setup_raises_when_no_mode_enabled_witness:
  "fst (setup_api loaders0 env_all_off ''cuda'' init :: (family, unit, nat) step)
     = Some (ValueError no_pipeline_message)
   \<and> snd (snd (setup_api loaders0 env_all_off ''cuda'' init :: (family, unit, nat) step)) = []
   \<and> pipeline (fst (snd (setup_api loaders0 env_all_off ''cuda'' init :: (family, unit, nat) step)))
     = None"
proof -
  have rs: "read_settings (int_of_str loaders0) env_all_off (init :: (family, unit) litfusion) =
     (None, init\<lparr>enable_image_variations := Some False, enable_image_edits := Some False,
        enable_images_generation := Some False, enable_vae_tiling := Some False,
        enable_vae_slicing := Some False, enable_cpu_offload := Some False,
        max_n := Some 10, model_name := Some ''default-model''\<rparr>)"
    by (simp add: read_settings_def getenv_int_def getenv_str_def init_def env_all_off_def
        loaders0_def ascii_int_0)
  obtain err self' log where st:
    "setup_api loaders0 env_all_off ''cuda'' init = (err, self', log :: nat event list)"
    using prod_cases3 by blast
  have cfg: "\<forall>e. config_json loaders0 \<noteq> Some (Inl e)" by (simp add: loaders0_def)
  from setup_raises_when_no_mode_enabled[OF rs _ _ _ st] cfg st
  show ?thesis by (simp add: truthy_def init_def)
qed










lemma handle_first_call:
  "\<exists>rest. calls (handle dz fam kwargs self request r) = From_pipe fam # rest"
  by (simp add: handle_def Let_def split: sum.splits)

text \<open>
  C5, as amended. A request whose type is one of the three modes and whose mode flag is set
  is routed to that mode's handler, whichever pipeline family \<^verbatim>\<open>setup\<close> constructed:
  \<^verbatim>\<open>predict\<close> looks at the flags only. The handler, when iterated, first derives its own view
  from the shared pipeline with \<^verbatim>\<open>from_pipe\<close>. The sentinel is not yielded.
\<close>

theorem enabled_mode_is_routed_to_its_handler:
  assumes "(t, flag, h, fam) \<in> {(''generation'', enable_images_generation self, Generate_images, Text2Image),
       (''edit'', enable_image_edits self, Edit_images, Inpainting),
       (''variation'', enable_image_variations self, Generate_variations, Image2Image)}"
    and "get_item request ''request_type'' PNone = PStr t"
    and "truthy flag"
  shows "predict self request = [Generator h request]
    \<and> (\<exists>rest. response_calls dz self (predict self request) r = From_pipe fam # rest)"
proof -
  from assms have p: "predict self request = [Generator h request]"
    by (auto simp: predict_def Let_def)
  from assms(1) have "\<exists>rest. calls (run_item dz self (Generator h request) r) = From_pipe fam # rest"
    by (auto simp: generate_images_def edit_images_def generate_variations_def handle_first_call)
  then show ?thesis by (simp add: p Let_def)
qed

text \<open>An edit request on the object that \<^verbatim>\<open>setup\<close> leaves in an empty environment.\<close>

theorem enabled_mode_is_routed_to_its_handler_witness:
  "predict ready edit_request = [Generator Edit_images edit_request]
   \<and> (\<exists>rest. response_calls diffusers0 ready (predict ready edit_request) 0
         = From_pipe Inpainting # rest)"
proof -
  have t: "get_item edit_request ''request_type'' PNone = PStr ''edit''"
    by (simp add: edit_request_def get_item_def)
  have f: "truthy (enable_image_edits ready)"
    by (simp add: ready_def init_def truthy_def)
  from enabled_mode_is_routed_to_its_handler
    [of "''edit''" "enable_image_edits ready" Edit_images Inpainting ready edit_request, OF _ t f]
  show ?thesis by simp
qed

text \<open>
  C5 as stated fails: in an empty environment all three modes are enabled and \<^verbatim>\<open>setup\<close>
  constructs the text-to-image pipeline; an edit request is then routed to \<^verbatim>\<open>edit_images\<close>,
  which yields images, and the sentinel is not produced.
\<close>

theorem enabled_edit_request_counterexample:
  "setup_api loaders0 Map.empty ''cuda'' init =
     (None, ready, [From_pretrained Text2Image (Some ''default-model''), To Float16, To Cuda])
   \<and> predict ready edit_request = [Generator Edit_images edit_request]
   \<and> predict ready edit_request \<noteq> [Text sentinel]
   \<and> yielded (edit_images diffusers0 ready edit_request 0) = [0, 1]"
proof -
  have k: "iteration_count edit_request (max_n ready) = Inr (Suc (Suc 0))"
    by (simp add: iteration_count_def edit_request_def get_item_def ready_def init_def)
  have v: "from_pipe diffusers0 Inpainting (pipeline ready) = Inr Inpainting"
    by (simp add: diffusers0_def ready_def init_def)
  have y: "yielded (edit_images diffusers0 ready edit_request 0) = [0, 1]"
    by (simp add: edit_images_def handle_def k v Let_def) (simp add: diffusers0_def)
  have p: "predict ready edit_request = [Generator Edit_images edit_request]"
    by (simp add: predict_def edit_request_def get_item_def ready_def init_def truthy_def)
  from setup_api_empty y p show ?thesis by simp
qed

end
